theory Spec2Isabelle
  imports Main
begin

section \<open>The scanGithubEnterprise command of wraith\<close>

text \<open>
  The repository's source is one file, \<^verbatim>\<open>cmd/scanGithubEnterprise.go\<close>: the cobra
  command \<^verbatim>\<open>scanGithubEnterpriseCmd\<close>, its \<^verbatim>\<open>Run\<close> closure (lines 24-83) and the
  flag declarations of \<^verbatim>\<open>init\<close> (lines 86-139). \<^verbatim>\<open>Run\<close> is straight-line
  code around a session pointer: it calls into package \<^verbatim>\<open>core\<close>, tests three slices of the
  session against \<^verbatim>\<open>nil\<close> to decide which gatherers to call, and ends in
  \<^verbatim>\<open>select {}\<close> unless the session is silent.

  Package \<^verbatim>\<open>core\<close> is not part of the source. Its functions are therefore parameters of
  the model: \<^verbatim>\<open>Run\<close> is embedded for every behaviour of every function it calls,
  including a callee that never returns (\<^verbatim>\<open>os.Exit\<close>, a panic, a hang).
\<close>

subsection \<open>Configuration (viper)\<close>

text \<open>
  A \<^verbatim>\<open>*viper.Viper\<close> is read by \<^verbatim>\<open>Run\<close> through \<^verbatim>\<open>GetString\<close> only. It is
  modelled as the list of its keys with their string values; a flag bound with
  \<^verbatim>\<open>BindPFlag(key, flag)\<close> contributes the entry \<open>(key, value)\<close>. A key that is not
  set reads as the empty string, as in viper. \<^verbatim>\<open>Run\<close> never writes the configuration,
  and it is taken to be the same throughout a run.
\<close>

type_synonym viper = "(string \<times> string) list"

definition GetString :: "viper \<Rightarrow> string \<Rightarrow> string" where
  "GetString v key = (case map_of v key of None \<Rightarrow> [] | Some x \<Rightarrow> x)"

text \<open>
  Lines 115-128 of \<^verbatim>\<open>init\<close> bind fourteen keys, each to the flag of this command that
  has the same name; these are the keys under which a flag given on the command line
  is read. (Lines 129-134 bind five more keys to flags of another command,
  \<^verbatim>\<open>scanGithubCmd\<close>.) \<open>BindPFlags\<close> is the configuration that a command line
  produces: the flags given, as pairs of name and value, under the bound keys.
\<close>

definition bound_keys :: "string list" where
  "bound_keys =
     [''debug'', ''hide-secrets'', ''scan-tests'', ''silent'', ''max-file-size'',
      ''commit-depth'', ''match-level'', ''github-enterprise-api-token'',
      ''github-enterprise-orgs'', ''github-enterprise-repos'', ''github-enterprise-url'',
      ''ignore-extension'', ''ignore-path'', ''signature-file'']"

definition BindPFlags :: "(string \<times> string) list \<Rightarrow> viper" where
  "BindPFlags flags = filter (\<lambda>(name, val). name \<in> set bound_keys) flags"

subsection \<open>The session\<close>

text \<open>
  The fields of \<^verbatim>\<open>core.Session\<close> that \<^verbatim>\<open>Run\<close> reads or writes. The three target
  slices are compared with \<^verbatim>\<open>nil\<close>, so a slice is a \<open>string list option\<close> with
  \<open>None\<close> for \<^verbatim>\<open>nil\<close>: a slice that is allocated but empty is \<open>Some []\<close> and
  passes the test \<^verbatim>\<open>!= nil\<close>. Instants are natural numbers. \<^verbatim>\<open>Run\<close> reads
  \<^verbatim>\<open>sess.Stats.StartedAt\<close> (line 38); \<open>FinishedAt\<close> is the \<open>finishedAt\<close> of spec
  section 3, unset (\<open>None\<close>) until the session is finished.

  The record is extensible: its \<open>more\<close> part stands for every other field of the
  struct and for whatever else the functions of \<^verbatim>\<open>core\<close> reach through the session
  (the git client, the network, the system clock).
\<close>

datatype level = IMPORTANT | ERROR | INFO

datatype arg = core_Name | version_AppVersion | len_Signatures | RFC3339 nat | Str string | Num int

type_synonym line = "level \<times> string \<times> arg list"

record Stats =
  StartedAt :: nat
  FinishedAt :: "nat option"

record Session =
  GithubAccessToken :: string
  UserLogins :: "string list option"
  UserOrgs :: "string list option"
  UserRepos :: "string list option"
  Silent :: bool
  BindAddress :: string
  BindPort :: int
  Stats :: Stats
  Out :: "line list"

text \<open>
  Modelled from the spec: the output sink \<^verbatim>\<open>sess.Out\<close> (the logger of \<^verbatim>\<open>core\<close>, not
  part of the source). A call of one of its methods emits one line, which is the format
  string and its arguments at the level of the method, and returns. \<^verbatim>\<open>Run\<close> calls
  \<^verbatim>\<open>Important\<close> and \<^verbatim>\<open>Error\<close>; \<open>INFO\<close> is the level of the notice of spec
  section 4.1. The arguments that come from outside the session are recorded by name.
\<close>

definition Out_Important :: "string \<Rightarrow> arg list \<Rightarrow> 'r Session_scheme \<Rightarrow> 'r Session_scheme" where
  "Out_Important fmt args s = s\<lparr>Out := Out s @ [(IMPORTANT, fmt, args)]\<rparr>"

definition Out_Error :: "string \<Rightarrow> arg list \<Rightarrow> 'r Session_scheme \<Rightarrow> 'r Session_scheme" where
  "Out_Error fmt args s = s\<lparr>Out := Out s @ [(ERROR, fmt, args)]\<rparr>"

subsection \<open>Package core as a parameter\<close>

text \<open>
  The calls \<^verbatim>\<open>Run\<close> makes on an existing session, by name. \<open>CheckToken t\<close> is the call
  \<^verbatim>\<open>core.CheckGithubAPIToken(t, sess)\<close>; \<open>ValidateUserInput v\<close> is
  \<^verbatim>\<open>sess.ValidateUserInput(v)\<close>.
\<close>

datatype callee =
    ValidateUserInput viper
  | CheckToken string
  | InitGitClient
  | GatherUsers
  | GatherOrgs
  | GatherGithubOrgRepositories
  | GetGithubRepositoriesFromOwner
  | AnalyzeRepositories
  | Finish
  | PrintSessionStats

text \<open>
  The behaviour of package \<^verbatim>\<open>core\<close> on a state \<open>'s\<close> (the session and what lies
  behind it). \<open>NewSession\<close> constructs the session, and a run begins with the session
  it has returned. Every other function takes the session and either returns, with the
  session as it left it, or never returns (\<open>None\<close>). \<open>CheckGithubAPIToken\<close> also
  returns a string.
\<close>

record 's core =
  NewSession :: "viper \<Rightarrow> string \<Rightarrow> 's"
  CheckGithubAPIToken :: "string \<Rightarrow> 's \<Rightarrow> (string \<times> 's) option"
  proc :: "callee \<Rightarrow> 's \<Rightarrow> 's option"

subsection \<open>Running the command\<close>

text \<open>
  A run is observed through the calls it makes: \<open>Enter c\<close> when \<^verbatim>\<open>Run\<close> calls
  \<open>c\<close>, \<open>Leave c\<close> when that call returns. The status of a run is \<open>Running\<close>
  while \<^verbatim>\<open>Run\<close> executes, \<open>Stopped\<close> once a callee has not returned,
  \<open>Blocked\<close> in \<^verbatim>\<open>select {}\<close> (which has no case and so blocks forever), and
  \<open>Returned\<close> when \<^verbatim>\<open>Run\<close> has reached its end.
\<close>

datatype event = Enter callee | Leave callee

datatype status = Running | Stopped | Blocked | Returned

record 's run =
  sess :: 's
  trace :: "event list"
  status :: status

text \<open>A statement of \<^verbatim>\<open>Run\<close> executes only while the run is \<open>Running\<close>.\<close>

definition call :: "'s core \<Rightarrow> callee \<Rightarrow> 's run \<Rightarrow> 's run" where
  "call core c r =
     (if status r \<noteq> Running then r
      else case proc core c (sess r) of
             None \<Rightarrow> r\<lparr>trace := trace r @ [Enter c], status := Stopped\<rparr>
           | Some s \<Rightarrow> r\<lparr>sess := s, trace := trace r @ [Enter c, Leave c]\<rparr>)"

definition update :: "('s \<Rightarrow> 's) \<Rightarrow> 's run \<Rightarrow> 's run" where
  "update f r = (if status r \<noteq> Running then r else r\<lparr>sess := f (sess r)\<rparr>)"

definition finish_with :: "status \<Rightarrow> 's run \<Rightarrow> 's run" where
  "finish_with st r = (if status r \<noteq> Running then r else r\<lparr>status := st\<rparr>)"

text \<open>
  Line 35: \<^verbatim>\<open>sess.GithubAccessToken = core.CheckGithubAPIToken(t, sess)\<close>. The call
  runs first, on the session; the string it returns is then stored in the session.
\<close>

definition assign_token :: "'r Session_scheme core \<Rightarrow> string \<Rightarrow> 'r Session_scheme run \<Rightarrow> 'r Session_scheme run" where
  "assign_token core t r =
     (if status r \<noteq> Running then r
      else case CheckGithubAPIToken core t (sess r) of
             None \<Rightarrow> r\<lparr>trace := trace r @ [Enter (CheckToken t)], status := Stopped\<rparr>
           | Some (tok, s) \<Rightarrow>
               r\<lparr>sess := s\<lparr>GithubAccessToken := tok\<rparr>,
                 trace := trace r @ [Enter (CheckToken t), Leave (CheckToken t)]\<rparr>)"

text \<open>Lines 26-35: the session is created, the input validated, the token resolved.\<close>

definition credential :: "'r Session_scheme core \<Rightarrow> viper \<Rightarrow> 'r Session_scheme run" where
  "credential core v =
     (let scanType = ''github-enterprise'';
          r = \<lparr>sess = NewSession core v scanType, trace = [], status = Running\<rparr>;
          r = call core (ValidateUserInput v) r
      in assign_token core (GetString v ''github-api-token'') r)"

text \<open>Lines 37-43: the three opening lines of output, then the git client.\<close>

definition startup :: "'r Session_scheme core \<Rightarrow> viper \<Rightarrow> 'r Session_scheme run" where
  "startup core v =
     (let r = credential core v;
          r = update (Out_Important ''%s v%s started at %s\<newline>''
                 [core_Name, version_AppVersion, RFC3339 (StartedAt (Stats (sess r)))]) r;
          r = update (Out_Important ''Loaded %d signatures.\<newline>'' [len_Signatures]) r;
          r = update (Out_Important ''Web interface available at http://%s:%d\<newline>''
                 [Str (BindAddress (sess r)), Num (BindPort (sess r))]) r
      in call core InitGitClient r)"

text \<open>
  Lines 45-72: the three \<^verbatim>\<open>if\<close> statements that choose the gatherers. Each reads the
  session as the statements before it left it.
\<close>

definition gather_targets :: "'r Session_scheme core \<Rightarrow> 'r Session_scheme run \<Rightarrow> 'r Session_scheme run" where
  "gather_targets core r =
     (let r = (if UserLogins (sess r) \<noteq> None then
                 (if UserOrgs (sess r) = None \<and> UserRepos (sess r) = None
                  then call core GatherUsers r else r)
               else r);
          r = (if UserOrgs (sess r) \<noteq> None then
                 (if UserLogins (sess r) = None \<and> UserRepos (sess r) = None
                  then call core GatherOrgs r else r)
               else r)
      in (if UserRepos (sess r) \<noteq> None then
            (if UserOrgs (sess r) \<noteq> None then
               call core GatherGithubOrgRepositories (call core GatherOrgs r)
             else if UserLogins (sess r) \<noteq> None then
               call core GetGithubRepositoriesFromOwner (call core GatherUsers r)
             else
               update (Out_Error
                 ''You need to specify an org or user that contains the repo(s).\<newline>'' []) r)
          else r))"

text \<open>Lines 74-77: analysis, the end of the session, the statistics.\<close>

definition analyze :: "'r Session_scheme core \<Rightarrow> 'r Session_scheme run \<Rightarrow> 'r Session_scheme run" where
  "analyze core r =
     (let r = call core AnalyzeRepositories r;
          r = call core Finish r
      in call core PrintSessionStats r)"

text \<open>Lines 79-83: unless the session is silent, one more line and \<^verbatim>\<open>select {}\<close>.\<close>

definition serve :: "'r Session_scheme run \<Rightarrow> 'r Session_scheme run" where
  "serve r =
     (let r = (if \<not> Silent (sess r) then
                 finish_with Blocked
                   (update (Out_Important ''Press Ctrl+C to stop web server and exit.\<newline>'' []) r)
               else r)
      in finish_with Returned r)"

definition Run :: "'r Session_scheme core \<Rightarrow> viper \<Rightarrow> 'r Session_scheme run" where
  "Run core v = serve (analyze core (gather_targets core (startup core v)))"

subsection \<open>Observing a run\<close>

text \<open>The calls of a trace, in order, and those of them that are gatherers.\<close>

fun entered :: "event \<Rightarrow> callee list" where
  "entered (Enter c) = [c]"
| "entered (Leave c) = []"

definition calls :: "event list \<Rightarrow> callee list" where
  "calls t = concat (map entered t)"

fun gatherer :: "callee \<Rightarrow> bool" where
  "gatherer GatherUsers = True"
| "gatherer GatherOrgs = True"
| "gatherer GatherGithubOrgRepositories = True"
| "gatherer GetGithubRepositoriesFromOwner = True"
| "gatherer c = False"

definition gathers :: "event list \<Rightarrow> callee list" where
  "gathers t = filter gatherer (calls t)"

text \<open>
  \<open>preceded blk e t\<close>: wherever the event \<open>e\<close> stands in the trace \<open>t\<close>, the events
  \<open>blk\<close> stand right before it.
\<close>

definition preceded :: "event list \<Rightarrow> event \<Rightarrow> event list \<Rightarrow> bool" where
  "preceded blk e t \<longleftrightarrow> (\<forall>pre post. t = pre @ e # post \<longrightarrow> (\<exists>p. pre = p @ blk))"

text \<open>A function of \<^verbatim>\<open>core\<close> that leaves the three target slices as it found them.\<close>

definition keeps_targets :: "'r Session_scheme core \<Rightarrow> callee \<Rightarrow> bool" where
  "keeps_targets core c \<longleftrightarrow>
     (\<forall>s s'. proc core c s = Some s' \<longrightarrow>
        UserLogins s' = UserLogins s \<and> UserOrgs s' = UserOrgs s \<and> UserRepos s' = UserRepos s)"

text \<open>
  Every function of \<^verbatim>\<open>core\<close> called on a session returns, the validation of the
  user input apart: that one may end the process.
\<close>

fun validation :: "callee \<Rightarrow> bool" where
  "validation (ValidateUserInput v) = True"
| "validation c = False"

definition returns :: "'s core \<Rightarrow> bool" where
  "returns core \<longleftrightarrow> (\<forall>c s. \<not> validation c \<longrightarrow> proc core c s \<noteq> None)"

subsection \<open>The five branches of the target resolver\<close>

text \<open>
  The classification of spec section 4.2, in the words of its table, read top to bottom
  with the first match winning. A set counts as non-empty when its slice is not
  \<^verbatim>\<open>nil\<close>. \<open>strategy\<close> follows the spec; \<open>branch_run\<close> is what the code of each branch
  does (lines 49, 56, 64-65, 67-68 and 70).
\<close>

datatype branch = by_login | by_org | org_then_repo | login_then_repo | invalid

definition strategy :: "'r Session_scheme \<Rightarrow> branch option" where
  "strategy s =
     (let logins = (UserLogins s \<noteq> None); orgs = (UserOrgs s \<noteq> None);
          repos = (UserRepos s \<noteq> None)
      in if logins \<and> \<not> orgs \<and> \<not> repos then Some by_login
         else if orgs \<and> \<not> logins \<and> \<not> repos then Some by_org
         else if repos \<and> orgs then Some org_then_repo
         else if repos \<and> logins \<and> \<not> orgs then Some login_then_repo
         else if repos \<and> \<not> orgs \<and> \<not> logins then Some invalid
         else None)"

fun branch_run :: "'r Session_scheme core \<Rightarrow> branch \<Rightarrow> 'r Session_scheme run \<Rightarrow> 'r Session_scheme run" where
  "branch_run core by_login r = call core GatherUsers r"
| "branch_run core by_org r = call core GatherOrgs r"
| "branch_run core org_then_repo r =
     call core GatherGithubOrgRepositories (call core GatherOrgs r)"
| "branch_run core login_then_repo r =
     call core GetGithubRepositoriesFromOwner (call core GatherUsers r)"
| "branch_run core invalid r =
     update (Out_Error
       ''You need to specify an org or user that contains the repo(s).\<newline>'' []) r"

subsection \<open>The functions of core that the spec describes\<close>

text \<open>
  Modelled from the spec: \<^verbatim>\<open>core.CheckGithubAPIToken\<close>, which is not part of the source.
  Section 4.1: a non-empty token is accepted as it is; an empty one puts the session in
  degraded (public-only) mode with an informational notice, and does not fail. The
  section has the credential resolver write exactly one field of the session; line 35
  stores the returned string in \<^verbatim>\<open>GithubAccessToken\<close>, so the degraded mode of a
  session is its empty token.
\<close>

definition CheckGithubAPIToken_spec :: "string \<Rightarrow> 'r Session_scheme \<Rightarrow> (string \<times> 'r Session_scheme) option" where
  "CheckGithubAPIToken_spec t s =
     (if t = [] then
        Some ([], s\<lparr>Out := Out s @
          [(INFO, ''no token is available so only public repos will be scanned'', [])]\<rparr>)
      else Some (t, s))"

definition degraded :: "'r Session_scheme \<Rightarrow> bool" where
  "degraded s \<longleftrightarrow> GithubAccessToken s = []"

text \<open>
  Modelled from the spec: \<^verbatim>\<open>Session.ValidateUserInput\<close>, which is not part of the
  source. Section 3: the three target sets are supplied once, from the configuration,
  and are in the session from its construction. Section 4.3: validation checks the user
  input for the policy violation of section 4.2, repositories with no owner context,
  and the process aborts with an error if it fails. Section 7: that error is the
  configuration error, the only fatal one; the process prints a message and exits with
  non-zero status before any network activity. \<open>validates\<close>: where the spec's
  validation fails, the call of \<^verbatim>\<open>ValidateUserInput\<close> ends the process, so it does not
  return.
\<close>

datatype failure = ConfigurationError

definition ValidateUserInput_spec :: "'r Session_scheme \<Rightarrow> failure + 'r Session_scheme" where
  "ValidateUserInput_spec s =
     (if UserRepos s \<noteq> None \<and> UserOrgs s = None \<and> UserLogins s = None
      then Inl ConfigurationError else Inr s)"


text \<open>
  Modelled from the spec: the timestamps of the session, written by \<^verbatim>\<open>core.NewSession\<close>
  and \<^verbatim>\<open>Session.Finish\<close>, which are not part of the source. Section 3: \<open>startedAt\<close>
  and \<open>finishedAt\<close>, the latter unset until \<open>finish\<close>; sections 2 and 4.3: finishing
  stops the timer; section 5: no other field is written by anyone else. \<open>clock\<close> reads
  the system clock from the part of the state behind the session. A new session is
  started at a reading of the clock not later than its construction and is not
  finished; \<open>Finish\<close> stores a reading taken during its call; no other function
  writes the timestamps; the clock never runs backwards.
\<close>

definition timed :: "('r \<Rightarrow> nat) \<Rightarrow> 'r Session_scheme core \<Rightarrow> bool" where
  "timed clock core \<longleftrightarrow>
     (\<forall>v ty. StartedAt (Stats (NewSession core v ty)) \<le> clock (Session.more (NewSession core v ty))
        \<and> FinishedAt (Stats (NewSession core v ty)) = None) \<and>
     (\<forall>s s'. proc core Finish s = Some s' \<longrightarrow>
        (\<exists>t. clock (Session.more s) \<le> t \<and> Stats s' = (Stats s)\<lparr>FinishedAt := Some t\<rparr>)) \<and>
     (\<forall>c s s'. c \<noteq> Finish \<longrightarrow> proc core c s = Some s' \<longrightarrow> Stats s' = Stats s) \<and>
     (\<forall>t s tok s'. CheckGithubAPIToken core t s = Some (tok, s') \<longrightarrow>
        Stats s' = Stats s \<and> clock (Session.more s) \<le> clock (Session.more s')) \<and>
     (\<forall>c s s'. proc core c s = Some s' \<longrightarrow> clock (Session.more s) \<le> clock (Session.more s'))"

text \<open>
  Two invariants of a run under \<open>timed\<close>. Before \<^verbatim>\<open>Finish\<close> is called the session
  is started at \<open>t0\<close>, not later than the clock, and is not finished. From the call of
  \<^verbatim>\<open>Finish\<close> on, the session is finished exactly when that call has returned, at an
  instant not before \<open>t0\<close>, and \<^verbatim>\<open>Finish\<close> has then been called exactly once
  (at most once as long as it has not returned).
\<close>

definition unfinished :: "('r \<Rightarrow> nat) \<Rightarrow> nat \<Rightarrow> 'r Session_scheme run \<Rightarrow> bool" where
  "unfinished clock t0 r \<longleftrightarrow>
     StartedAt (Stats (sess r)) = t0 \<and> t0 \<le> clock (Session.more (sess r)) \<and>
     FinishedAt (Stats (sess r)) = None \<and>
     Enter Finish \<notin> set (trace r) \<and> Leave Finish \<notin> set (trace r)"

definition finished_once :: "nat \<Rightarrow> 'r Session_scheme run \<Rightarrow> bool" where
  "finished_once t0 r \<longleftrightarrow>
     StartedAt (Stats (sess r)) = t0 \<and>
     (if Leave Finish \<in> set (trace r)
      then (\<exists>t. FinishedAt (Stats (sess r)) = Some t \<and> t0 \<le> t) \<and>
           length (filter (\<lambda>e. e = Enter Finish) (trace r)) = 1
      else FinishedAt (Stats (sess r)) = None \<and>
           length (filter (\<lambda>e. e = Enter Finish) (trace r)) \<le> 1)"

subsection \<open>A mock of package core\<close>

text \<open>
  A deterministic stand-in for package \<^verbatim>\<open>core\<close>, to run the model on concrete
  configurations. The part of the state behind the session is a clock that every call
  advances by one. Modelled from the spec: \<open>NewSession\<close> constructs the session from
  the configuration, the three target slices included (one name per key, \<^verbatim>\<open>nil\<close> when
  the key is empty; the logins under the key \<^verbatim>\<open>github-enterprise-users\<close>, for which
  this command declares no flag); \<open>ValidateUserInput\<close> is the validation of the spec,
  which does not return on repositories with no owner; the token check is the spec's;
  \<open>Finish\<close> stores the clock. Every other function returns and leaves the session as
  it is.
\<close>

definition mock_slice :: "string \<Rightarrow> string list option" where
  "mock_slice x = (if x = [] then None else Some [x])"

definition mock_NewSession :: "viper \<Rightarrow> string \<Rightarrow> nat Session_scheme" where
  "mock_NewSession v ty =
     \<lparr>GithubAccessToken = [],
      UserLogins = mock_slice (GetString v ''github-enterprise-users''),
      UserOrgs = mock_slice (GetString v ''github-enterprise-orgs''),
      UserRepos = mock_slice (GetString v ''github-enterprise-repos''),
      Silent = (GetString v ''silent'' = ''true''),
      BindAddress = GetString v ''bind-address'', BindPort = 9393,
      Stats = \<lparr>StartedAt = 0, FinishedAt = None\<rparr>, Out = [], \<dots> = 0\<rparr>"

fun mock_proc :: "callee \<Rightarrow> nat Session_scheme \<Rightarrow> nat Session_scheme option" where
  "mock_proc (ValidateUserInput v) s =
     (case ValidateUserInput_spec s of
        Inl e \<Rightarrow> None
      | Inr s' \<Rightarrow> Some (s'\<lparr>Session.more := Suc (Session.more s')\<rparr>))"
| "mock_proc Finish s =
     Some (s\<lparr>Stats := (Stats s)\<lparr>FinishedAt := Some (Suc (Session.more s))\<rparr>,
             Session.more := Suc (Session.more s)\<rparr>)"
| "mock_proc c s = Some (s\<lparr>Session.more := Suc (Session.more s)\<rparr>)"

definition mock_core :: "nat Session_scheme core" where
  "mock_core =
     \<lparr>NewSession = mock_NewSession, CheckGithubAPIToken = CheckGithubAPIToken_spec,
      proc = mock_proc\<rparr>"

text \<open>Configurations: each lists the keys that are set.\<close>

definition cfg_repos_only :: viper where
  "cfg_repos_only = [(''github-enterprise-repos'', ''widget'')]"

definition cfg_logins_orgs :: viper where
  "cfg_logins_orgs =
     [(''github-enterprise-users'', ''alice''), (''github-enterprise-orgs'', ''acme'')]"

definition cfg_orgs_repos :: viper where
  "cfg_orgs_repos =
     [(''github-enterprise-orgs'', ''acme''), (''github-enterprise-repos'', ''widget'')]"

definition cfg_logins_repos :: viper where
  "cfg_logins_repos =
     [(''github-enterprise-users'', ''bob''), (''github-enterprise-repos'', ''widget'')]"

definition cfg_all :: viper where
  "cfg_all =
     [(''github-enterprise-users'', ''alice''), (''github-enterprise-orgs'', ''acme''),
      (''github-enterprise-repos'', ''widget'')]"

definition cfg_login :: viper where
  "cfg_login = [(''github-enterprise-users'', ''bob'')]"

definition cfg_silent :: viper where
  "cfg_silent = [(''github-enterprise-orgs'', ''acme''), (''silent'', ''true'')]"

definition cfg_token :: viper where
  "cfg_token =
     BindPFlags
       [(''github-enterprise-api-token'', ''0123456789abcdef0123456789abcdef01234567''),
        (''github-enterprise-orgs'', ''acme'')]"

section \<open>The steps of a run\<close>

lemma status_call:
  "status (call core c r) =
     (if status r = Running then (case proc core c (sess r) of None \<Rightarrow> Stopped | Some s \<Rightarrow> Running)
      else status r)"
  by (simp add: call_def split: option.split)

lemma trace_update: "trace (update f r) = trace r"
  by (simp add: update_def)

lemma status_update: "status (update f r) = status r"
  by (simp add: update_def)









lemma trace_finish_with: "trace (finish_with st r) = trace r"
  by (simp add: finish_with_def)

lemma trace_serve: "trace (serve r) = trace r"
  by (simp add: serve_def Let_def trace_finish_with trace_update)

lemma trace_call_Running:
  "status r = Running \<Longrightarrow> \<exists>rest. trace (call core c r) = trace r @ Enter c # rest"
  by (simp add: call_def split: option.split)

lemma trace_call_ext: "\<exists>ext. trace (call core c r) = trace r @ ext"
  by (simp add: call_def split: option.split)

text \<open>Once the resolver is done and the run still runs, the next call is the analysis.\<close>

lemma trace_analyze_Running:
  assumes "status r = Running"
  shows "\<exists>rest. trace (analyze core r) = trace r @ Enter AnalyzeRepositories # rest"
proof -
  let ?a = "call core AnalyzeRepositories r"
  let ?f = "call core Finish ?a"
  obtain x where x: "trace ?a = trace r @ Enter AnalyzeRepositories # x"
    using trace_call_Running [OF assms] by blast
  obtain y where y: "trace ?f = trace ?a @ y"
    using trace_call_ext by blast
  obtain z where z: "trace (call core PrintSessionStats ?f) = trace ?f @ z"
    using trace_call_ext by blast
  show ?thesis
    by (simp add: analyze_def Let_def x y z)
qed

subsection \<open>The calls of each stage\<close>

lemma calls_Nil: "calls [] = []"
  by (simp add: calls_def)

lemma calls_call:
  "calls (trace (call core c r)) = calls (trace r) @ (if status r = Running then [c] else [])"
  by (simp add: call_def calls_def split: option.split)

lemma calls_assign_token:
  "calls (trace (assign_token core t r)) =
     calls (trace r) @ (if status r = Running then [CheckToken t] else [])"
  by (simp add: assign_token_def calls_def split: option.split prod.split)

lemma calls_credential:
  "calls (trace (credential core v)) =
     ValidateUserInput v #
       (if proc core (ValidateUserInput v) (NewSession core v ''github-enterprise'') = None then []
        else [CheckToken (GetString v ''github-api-token'')])"
  by (simp add: credential_def Let_def calls_assign_token calls_call status_call calls_Nil
      split: option.split)

lemma calls_startup:
  "set (calls (trace (startup core v))) \<subseteq>
     {ValidateUserInput v, CheckToken (GetString v ''github-api-token''), InitGitClient}"
  by (auto simp add: startup_def Let_def calls_call trace_update calls_credential
      split: if_splits)

lemma gathers_startup: "gathers (trace (startup core v)) = []"
  using calls_startup [of core v]
  by (auto simp add: gathers_def filter_empty_conv)

lemma gathers_analyze: "gathers (trace (analyze core r)) = gathers (trace r)"
  by (simp add: analyze_def Let_def calls_call gathers_def)

lemma gathers_Run:
  "gathers (trace (Run core v)) = gathers (trace (gather_targets core (startup core v)))"
  by (simp add: Run_def trace_serve gathers_analyze)

lemma gathers_call:
  "gathers (trace (call core c r)) =
     gathers (trace r) @ (if status r = Running \<and> gatherer c then [c] else [])"
  by (simp add: gathers_def calls_call)

lemma not_gathered: "gatherer c \<Longrightarrow> c \<notin> set (gathers t) \<Longrightarrow> c \<notin> set (calls t)"
  by (simp add: gathers_def)

lemma targets_call:
  assumes "keeps_targets core c"
  shows "UserLogins (sess (call core c r)) = UserLogins (sess r)"
    and "UserOrgs (sess (call core c r)) = UserOrgs (sess r)"
    and "UserRepos (sess (call core c r)) = UserRepos (sess r)"
  using assms by (auto simp add: call_def keeps_targets_def split: option.split)


subsection \<open>The resolver, case by case\<close>

lemma gather_targets_logins_orgs:
  "UserLogins (sess r) = Some ls \<Longrightarrow> UserOrgs (sess r) = Some os \<Longrightarrow>
   UserRepos (sess r) = None \<Longrightarrow> gather_targets core r = r"
  by (simp add: gather_targets_def Let_def)

lemma gather_targets_repos_orgs:
  "UserRepos (sess r) = Some rs \<Longrightarrow> UserOrgs (sess r) = Some os \<Longrightarrow>
   gather_targets core r = call core GatherGithubOrgRepositories (call core GatherOrgs r)"
  by (simp add: gather_targets_def Let_def)

lemma gather_targets_repos_logins:
  "UserRepos (sess r) = Some rs \<Longrightarrow> UserLogins (sess r) = Some ls \<Longrightarrow>
   UserOrgs (sess r) = None \<Longrightarrow>
   gather_targets core r = call core GetGithubRepositoriesFromOwner (call core GatherUsers r)"
  by (simp add: gather_targets_def Let_def)

lemma gather_targets_repos_only:
  "UserRepos (sess r) = Some rs \<Longrightarrow> UserLogins (sess r) = None \<Longrightarrow>
   UserOrgs (sess r) = None \<Longrightarrow>
   gather_targets core r =
     update (Out_Error
       ''You need to specify an org or user that contains the repo(s).\<newline>'' []) r"
  by (simp add: gather_targets_def Let_def)

section \<open>Repositories without an owner\<close>





section \<open>Logins and organizations without repositories\<close>

text \<open>
  Claim C9. When the run reaches line 45 with logins and organizations both given and
  no repositories, none of the guards of lines 47-72 holds: the three statements leave
  the session, the trace and the output as they were, so no gatherer is called and no
  error is reported, and the next call of the run is \<^verbatim>\<open>AnalyzeRepositories\<close>, on the
  session as \<^verbatim>\<open>InitGitClient\<close> left it.
\<close>

theorem logins_and_orgs_without_repos:
  assumes "status (startup core v) = Running"
    and "UserLogins (sess (startup core v)) \<noteq> None"
    and "UserOrgs (sess (startup core v)) \<noteq> None"
    and "UserRepos (sess (startup core v)) = None"
  shows "gather_targets core (startup core v) = startup core v
       \<and> gathers (trace (Run core v)) = []
       \<and> (\<exists>rest. trace (Run core v) = trace (startup core v) @ Enter AnalyzeRepositories # rest)"
proof -
  have g: "gather_targets core (startup core v) = startup core v"
    using assms by (auto simp add: gather_targets_logins_orgs)
  have "gathers (trace (Run core v)) = []"
    by (simp add: gathers_Run g gathers_startup)
  moreover have "\<exists>rest. trace (Run core v) = trace (startup core v) @ Enter AnalyzeRepositories # rest"
    using trace_analyze_Running [OF assms(1), of core] by (simp add: Run_def trace_serve g)
  ultimately show ?thesis using g by simp
qed

theorem logins_and_orgs_without_repos_witness:
  "status (startup mock_core cfg_logins_orgs) = Running
   \<and> UserLogins (sess (startup mock_core cfg_logins_orgs)) \<noteq> None
   \<and> UserOrgs (sess (startup mock_core cfg_logins_orgs)) \<noteq> None
   \<and> UserRepos (sess (startup mock_core cfg_logins_orgs)) = None
   \<and> gather_targets mock_core (startup mock_core cfg_logins_orgs) = startup mock_core cfg_logins_orgs
   \<and> gathers (trace (Run mock_core cfg_logins_orgs)) = []
   \<and> (\<exists>rest. trace (Run mock_core cfg_logins_orgs) =
         trace (startup mock_core cfg_logins_orgs) @ Enter AnalyzeRepositories # rest)"
proof -
  have h: "status (startup mock_core cfg_logins_orgs) = Running
     \<and> UserLogins (sess (startup mock_core cfg_logins_orgs)) \<noteq> None
     \<and> UserOrgs (sess (startup mock_core cfg_logins_orgs)) \<noteq> None
     \<and> UserRepos (sess (startup mock_core cfg_logins_orgs)) = None"
    by code_simp
  from h logins_and_orgs_without_repos [of mock_core cfg_logins_orgs] show ?thesis
    by simp
qed

section \<open>Repositories with organizations\<close>

text \<open>
  Claim C10. When the run reaches line 45 with repositories and organizations given,
  whatever the logins, lines 45-72 call \<^verbatim>\<open>GatherOrgs\<close> and, once it has returned,
  \<^verbatim>\<open>GatherGithubOrgRepositories\<close>. These are the only gatherers of the run:
  \<^verbatim>\<open>GatherUsers\<close> and \<^verbatim>\<open>GetGithubRepositoriesFromOwner\<close> are not called.
\<close>

theorem repos_and_orgs:
  assumes "status (startup core v) = Running"
    and "UserRepos (sess (startup core v)) \<noteq> None"
    and "UserOrgs (sess (startup core v)) \<noteq> None"
  shows "gather_targets core (startup core v) =
           call core GatherGithubOrgRepositories (call core GatherOrgs (startup core v))
       \<and> gathers (trace (Run core v)) =
           GatherOrgs # (if proc core GatherOrgs (sess (startup core v)) = None then []
                         else [GatherGithubOrgRepositories])
       \<and> GatherUsers \<notin> set (calls (trace (Run core v)))
       \<and> GetGithubRepositoriesFromOwner \<notin> set (calls (trace (Run core v)))"
proof -
  have g: "gather_targets core (startup core v) =
      call core GatherGithubOrgRepositories (call core GatherOrgs (startup core v))"
    using assms by (auto simp add: gather_targets_repos_orgs)
  have gs: "gathers (trace (Run core v)) =
      GatherOrgs # (if proc core GatherOrgs (sess (startup core v)) = None then []
                    else [GatherGithubOrgRepositories])"
    using assms(1)
    by (simp add: gathers_Run g gathers_call gathers_startup status_call split: option.split)
  have "GatherUsers \<notin> set (gathers (trace (Run core v)))"
    and "GetGithubRepositoriesFromOwner \<notin> set (gathers (trace (Run core v)))"
    by (simp_all add: gs)
  then have "GatherUsers \<notin> set (calls (trace (Run core v)))"
    and "GetGithubRepositoriesFromOwner \<notin> set (calls (trace (Run core v)))"
    by (simp_all add: not_gathered)
  with g gs show ?thesis by simp
qed

text \<open>The mock run with logins, organizations and repositories all given.\<close>

theorem repos_and_orgs_witness:
  "status (startup mock_core cfg_all) = Running
   \<and> UserLogins (sess (startup mock_core cfg_all)) = Some [''alice'']
   \<and> UserRepos (sess (startup mock_core cfg_all)) \<noteq> None
   \<and> UserOrgs (sess (startup mock_core cfg_all)) \<noteq> None
   \<and> gathers (trace (Run mock_core cfg_all)) = [GatherOrgs, GatherGithubOrgRepositories]
   \<and> GatherUsers \<notin> set (calls (trace (Run mock_core cfg_all)))
   \<and> GetGithubRepositoriesFromOwner \<notin> set (calls (trace (Run mock_core cfg_all)))"
proof -
  have h: "status (startup mock_core cfg_all) = Running
     \<and> UserLogins (sess (startup mock_core cfg_all)) = Some [''alice'']
     \<and> UserRepos (sess (startup mock_core cfg_all)) \<noteq> None
     \<and> UserOrgs (sess (startup mock_core cfg_all)) \<noteq> None"
    by code_simp
  have p: "proc mock_core GatherOrgs (sess (startup mock_core cfg_all)) \<noteq> None"
    by code_simp
  from h p repos_and_orgs [of mock_core cfg_all] show ?thesis
    by simp
qed

section \<open>Repositories with logins\<close>

text \<open>
  Claim C6. When the run reaches line 45 with repositories and logins given and no
  organizations, lines 45-72 call \<^verbatim>\<open>GatherUsers\<close> and, once it has returned,
  \<^verbatim>\<open>GetGithubRepositoriesFromOwner\<close>; no other gatherer is called in the run.
\<close>

theorem repos_and_logins:
  assumes "status (startup core v) = Running"
    and "UserRepos (sess (startup core v)) \<noteq> None"
    and "UserLogins (sess (startup core v)) \<noteq> None"
    and "UserOrgs (sess (startup core v)) = None"
  shows "gather_targets core (startup core v) =
           call core GetGithubRepositoriesFromOwner (call core GatherUsers (startup core v))
       \<and> gathers (trace (Run core v)) =
           GatherUsers # (if proc core GatherUsers (sess (startup core v)) = None then []
                          else [GetGithubRepositoriesFromOwner])"
proof -
  have g: "gather_targets core (startup core v) =
      call core GetGithubRepositoriesFromOwner (call core GatherUsers (startup core v))"
    using assms by (auto simp add: gather_targets_repos_logins)
  have gs: "gathers (trace (Run core v)) =
      GatherUsers # (if proc core GatherUsers (sess (startup core v)) = None then []
                     else [GetGithubRepositoriesFromOwner])"
    using assms(1)
    by (simp add: gathers_Run g gathers_call gathers_startup status_call split: option.split)
  with g show ?thesis by simp
qed

theorem repos_and_logins_witness:
  "status (startup mock_core cfg_logins_repos) = Running
   \<and> UserRepos (sess (startup mock_core cfg_logins_repos)) \<noteq> None
   \<and> UserLogins (sess (startup mock_core cfg_logins_repos)) \<noteq> None
   \<and> UserOrgs (sess (startup mock_core cfg_logins_repos)) = None
   \<and> gathers (trace (Run mock_core cfg_logins_repos)) =
       [GatherUsers, GetGithubRepositoriesFromOwner]"
proof -
  have h: "status (startup mock_core cfg_logins_repos) = Running
     \<and> UserRepos (sess (startup mock_core cfg_logins_repos)) \<noteq> None
     \<and> UserLogins (sess (startup mock_core cfg_logins_repos)) \<noteq> None
     \<and> UserOrgs (sess (startup mock_core cfg_logins_repos)) = None"
    by code_simp
  have p: "proc mock_core GatherUsers (sess (startup mock_core cfg_logins_repos)) \<noteq> None"
    by code_simp
  from h p repos_and_logins [of mock_core cfg_logins_repos] show ?thesis
    by simp
qed

section \<open>The five branches\<close>

lemma gather_targets_nothing:
  "UserLogins (sess r) = None \<Longrightarrow> UserOrgs (sess r) = None \<Longrightarrow> UserRepos (sess r) = None \<Longrightarrow>
   gather_targets core r = r"
  by (simp add: gather_targets_def Let_def)

lemma gather_targets_logins:
  "keeps_targets core GatherUsers \<Longrightarrow>
   UserLogins (sess r) = Some ls \<Longrightarrow> UserOrgs (sess r) = None \<Longrightarrow>
   UserRepos (sess r) = None \<Longrightarrow> gather_targets core r = call core GatherUsers r"
  by (simp add: gather_targets_def Let_def targets_call)

lemma gather_targets_orgs:
  "keeps_targets core GatherOrgs \<Longrightarrow>
   UserOrgs (sess r) = Some os \<Longrightarrow> UserLogins (sess r) = None \<Longrightarrow>
   UserRepos (sess r) = None \<Longrightarrow> gather_targets core r = call core GatherOrgs r"
  by (simp add: gather_targets_def Let_def targets_call)

text \<open>
  The mock run with a login and an organization and no repository reaches line 45
  running, and lines 45-72 leave the run as it is, which none of the five branches
  does: the resolver has selected no branch.
\<close>

theorem logins_and_orgs_select_no_branch:
  "status (startup mock_core cfg_logins_orgs) = Running
   \<and> UserLogins (sess (startup mock_core cfg_logins_orgs)) = Some [''alice'']
   \<and> UserOrgs (sess (startup mock_core cfg_logins_orgs)) = Some [''acme'']
   \<and> UserRepos (sess (startup mock_core cfg_logins_orgs)) = None
   \<and> gather_targets mock_core (startup mock_core cfg_logins_orgs) =
       startup mock_core cfg_logins_orgs
   \<and> branch_run mock_core by_login (startup mock_core cfg_logins_orgs) \<noteq>
       startup mock_core cfg_logins_orgs
   \<and> branch_run mock_core by_org (startup mock_core cfg_logins_orgs) \<noteq>
       startup mock_core cfg_logins_orgs
   \<and> branch_run mock_core org_then_repo (startup mock_core cfg_logins_orgs) \<noteq>
       startup mock_core cfg_logins_orgs
   \<and> branch_run mock_core login_then_repo (startup mock_core cfg_logins_orgs) \<noteq>
       startup mock_core cfg_logins_orgs
   \<and> branch_run mock_core invalid (startup mock_core cfg_logins_orgs) \<noteq>
       startup mock_core cfg_logins_orgs"
  by code_simp

text \<open>
  Claim C4, as amended. For every combination of the three target slices, lines 45-72
  do what the table of spec section 4.2 says, where \<^verbatim>\<open>GatherUsers\<close> and
  \<^verbatim>\<open>GatherOrgs\<close> leave the slices as they are: they run the one branch that
  \<open>strategy\<close> selects, and nothing when it selects none. It selects none exactly when
  no repositories are given and logins and organizations are both given or both not
  given. With repositories and neither organizations nor logins the resolver runs the
  invalid branch, which reports the error of line 70.
\<close>

theorem resolver_follows_strategy:
  assumes "keeps_targets core GatherUsers" and "keeps_targets core GatherOrgs"
  shows "gather_targets core r =
           (case strategy (sess r) of None \<Rightarrow> r | Some b \<Rightarrow> branch_run core b r)
       \<and> (strategy (sess r) = None \<longleftrightarrow>
            UserRepos (sess r) = None \<and>
            (UserLogins (sess r) = None \<longleftrightarrow> UserOrgs (sess r) = None))
       \<and> (UserRepos (sess r) \<noteq> None \<and> UserOrgs (sess r) = None \<and> UserLogins (sess r) = None
            \<longrightarrow> gather_targets core r = branch_run core invalid r)"
proof (intro conjI)
  show "gather_targets core r =
      (case strategy (sess r) of None \<Rightarrow> r | Some b \<Rightarrow> branch_run core b r)"
  proof (cases "UserRepos (sess r)")
    case None
    note R = this
    show ?thesis
    proof (cases "UserLogins (sess r)")
      case None
      note L = this
      show ?thesis
      proof (cases "UserOrgs (sess r)")
        case None
        with L R show ?thesis
          by (simp add: gather_targets_nothing strategy_def)
      next
        case (Some os)
        with L R assms(2) show ?thesis
          by (simp add: gather_targets_orgs strategy_def)
      qed
    next
      case (Some ls)
      note L = this
      show ?thesis
      proof (cases "UserOrgs (sess r)")
        case None
        with L R assms(1) show ?thesis
          by (simp add: gather_targets_logins strategy_def)
      next
        case (Some os)
        with L R show ?thesis
          by (simp add: gather_targets_logins_orgs strategy_def)
      qed
    qed
  next
    case (Some rs)
    note R = this
    show ?thesis
    proof (cases "UserOrgs (sess r)")
      case None
      note O = this
      show ?thesis
      proof (cases "UserLogins (sess r)")
        case None
        with O R show ?thesis
          by (simp add: gather_targets_repos_only strategy_def)
      next
        case (Some ls)
        with O R show ?thesis
          by (simp add: gather_targets_repos_logins strategy_def)
      qed
    next
      case (Some os)
      with R show ?thesis
        by (simp add: gather_targets_repos_orgs strategy_def)
    qed
  qed
next
  show "strategy (sess r) = None \<longleftrightarrow>
      UserRepos (sess r) = None \<and> (UserLogins (sess r) = None \<longleftrightarrow> UserOrgs (sess r) = None)"
    by (auto simp add: strategy_def Let_def)
next
  show "UserRepos (sess r) \<noteq> None \<and> UserOrgs (sess r) = None \<and> UserLogins (sess r) = None
      \<longrightarrow> gather_targets core r = branch_run core invalid r"
    by (auto simp add: gather_targets_repos_only)
qed

text \<open>
  The mock run with a login only, which takes the by-login branch, and the resolver
  started on a session with a repository only, where it runs the invalid branch.
\<close>

theorem resolver_follows_strategy_witness:
  "keeps_targets mock_core GatherUsers \<and> keeps_targets mock_core GatherOrgs
   \<and> strategy (sess (startup mock_core cfg_login)) = Some by_login
   \<and> gather_targets mock_core (startup mock_core cfg_login) =
       call mock_core GatherUsers (startup mock_core cfg_login)
   \<and> UserRepos (mock_NewSession cfg_repos_only ''github-enterprise'') \<noteq> None
   \<and> UserOrgs (mock_NewSession cfg_repos_only ''github-enterprise'') = None
   \<and> UserLogins (mock_NewSession cfg_repos_only ''github-enterprise'') = None
   \<and> gather_targets mock_core
         \<lparr>sess = mock_NewSession cfg_repos_only ''github-enterprise'', trace = [],
          status = Running\<rparr> =
       branch_run mock_core invalid
         \<lparr>sess = mock_NewSession cfg_repos_only ''github-enterprise'', trace = [],
          status = Running\<rparr>"
proof -
  let ?r = "\<lparr>sess = mock_NewSession cfg_repos_only ''github-enterprise'', trace = [],
      status = Running\<rparr>"
  have k: "keeps_targets mock_core GatherUsers" "keeps_targets mock_core GatherOrgs"
    by (auto simp add: keeps_targets_def mock_core_def)
  have s: "strategy (sess (startup mock_core cfg_login)) = Some by_login"
    by code_simp
  have h: "UserRepos (mock_NewSession cfg_repos_only ''github-enterprise'') \<noteq> None
     \<and> UserOrgs (mock_NewSession cfg_repos_only ''github-enterprise'') = None
     \<and> UserLogins (mock_NewSession cfg_repos_only ''github-enterprise'') = None"
    by code_simp
  note a = resolver_follows_strategy [OF k, of "startup mock_core cfg_login"]
  note b = resolver_follows_strategy [OF k, of ?r]
  from a s have a': "gather_targets mock_core (startup mock_core cfg_login) =
      call mock_core GatherUsers (startup mock_core cfg_login)"
    by simp
  from b have "UserRepos (sess ?r) \<noteq> None \<and> UserOrgs (sess ?r) = None \<and> UserLogins (sess ?r) = None
      \<longrightarrow> gather_targets mock_core ?r = branch_run mock_core invalid ?r"
    by (elim conjE)
  with h have b': "gather_targets mock_core ?r = branch_run mock_core invalid ?r"
    by simp
  from k s a' h b' show ?thesis by (intro conjI) (erule conjunct1 conjunct2 | assumption | erule conjE)+
qed

section \<open>After the report\<close>

text \<open>
  The mock run of a silent configuration: the statistics call has returned, the session
  is silent, and \<^verbatim>\<open>Run\<close> returns. It does not block.
\<close>

theorem silent_run_does_not_block:
  "Silent (sess (analyze mock_core (gather_targets mock_core (startup mock_core cfg_silent))))
   \<and> status (analyze mock_core (gather_targets mock_core (startup mock_core cfg_silent))) = Running
   \<and> status (Run mock_core cfg_silent) = Returned"
  by code_simp

text \<open>
  Claim C3, as amended. Once \<^verbatim>\<open>PrintSessionStats\<close> has returned, a silent session
  makes \<^verbatim>\<open>Run\<close> return at once, with no further output: the guard of line 79 covers
  both the message and \<^verbatim>\<open>select {}\<close>. A session that is not silent gets the line
  of line 80 and the run blocks forever.
\<close>

theorem after_report:
  assumes "status (analyze core (gather_targets core (startup core v))) = Running"
  shows "Run core v =
     (let r = analyze core (gather_targets core (startup core v))
      in if Silent (sess r) then r\<lparr>status := Returned\<rparr>
         else r\<lparr>sess := Out_Important
                    ''Press Ctrl+C to stop web server and exit.\<newline>'' [] (sess r),
                status := Blocked\<rparr>)"
  using assms by (simp add: Run_def serve_def Let_def update_def finish_with_def)

theorem after_report_witness:
  "status (analyze mock_core (gather_targets mock_core (startup mock_core cfg_silent))) = Running
   \<and> Silent (sess (analyze mock_core (gather_targets mock_core (startup mock_core cfg_silent))))
   \<and> Run mock_core cfg_silent =
       (analyze mock_core (gather_targets mock_core (startup mock_core cfg_silent)))
         \<lparr>status := Returned\<rparr>
   \<and> status (analyze mock_core (gather_targets mock_core (startup mock_core cfg_orgs_repos)))
       = Running
   \<and> \<not> Silent (sess (analyze mock_core (gather_targets mock_core (startup mock_core cfg_orgs_repos))))
   \<and> status (Run mock_core cfg_orgs_repos) = Blocked"
proof -
  have h: "status (analyze mock_core (gather_targets mock_core (startup mock_core cfg_silent)))
      = Running"
    by code_simp
  have s: "Silent (sess (analyze mock_core (gather_targets mock_core (startup mock_core cfg_silent))))"
    by code_simp
  have h': "status (analyze mock_core (gather_targets mock_core (startup mock_core cfg_orgs_repos)))
      = Running"
    by code_simp
  have s': "\<not> Silent (sess (analyze mock_core (gather_targets mock_core (startup mock_core cfg_orgs_repos))))"
    by code_simp
  have a: "Run mock_core cfg_silent =
      (analyze mock_core (gather_targets mock_core (startup mock_core cfg_silent)))
        \<lparr>status := Returned\<rparr>"
    using after_report [OF h] s by (simp add: Let_def)
  have b: "status (Run mock_core cfg_orgs_repos) = Blocked"
    using after_report [OF h'] s' by (simp add: Let_def)
  from h s a h' s' b show ?thesis by (intro conjI)
qed

section \<open>The token handed to the credential resolver\<close>

text \<open>
  Claim C2 on a command line that gives \<^verbatim>\<open>--github-enterprise-api-token\<close> (and an
  organization). The flag is bound to the key of its own name (line 122), where the
  token is; line 35 reads the key \<^verbatim>\<open>github-api-token\<close>, which is not set, so the
  credential resolver is called with the empty string and the session's token is not
  the token given. (\<open>calls_credential\<close> above: for every \<^verbatim>\<open>core\<close> and every
  configuration, the string handed over is the value of \<^verbatim>\<open>github-api-token\<close>.)
\<close>

theorem enterprise_token_flag_is_not_read:
  "GetString cfg_token ''github-enterprise-api-token'' =
     ''0123456789abcdef0123456789abcdef01234567''
   \<and> calls (trace (credential mock_core cfg_token)) =
       [ValidateUserInput cfg_token, CheckToken []]
   \<and> GithubAccessToken (sess (Run mock_core cfg_token)) = []"
  by code_simp

section \<open>The order of the gathers\<close>

lemma preceded_absent: "e \<notin> set t \<Longrightarrow> preceded blk e t"
  by (auto simp add: preceded_def)

lemma preceded_append:
  assumes "preceded blk e xs" and "preceded blk e ys"
  shows "preceded blk e (xs @ ys)"
  unfolding preceded_def
proof (intro allI impI)
  fix pre post
  assume eq: "xs @ ys = pre @ e # post"
  then consider (left) us where "xs = pre @ us" "us @ ys = e # post"
    | (right) us where "xs @ us = pre" "ys = us @ e # post"
    by (auto simp add: append_eq_append_conv2)
  then show "\<exists>p. pre = p @ blk"
  proof cases
    case left
    show ?thesis
    proof (cases us)
      case Nil
      with left have "ys = [] @ e # post" by simp
      with assms(2) obtain p where "[] = p @ blk" unfolding preceded_def by blast
      with left Nil show ?thesis by simp
    next
      case (Cons u us')
      with left have "xs = pre @ e # us'" by simp
      with assms(1) show ?thesis unfolding preceded_def by blast
    qed
  next
    case right
    with assms(2) obtain p where "us = p @ blk" unfolding preceded_def by blast
    with right have "pre = (xs @ p) @ blk" by simp
    then show ?thesis by blast
  qed
qed

lemma preceded_block:
  assumes "e \<notin> set blk" and "e \<notin> set post"
  shows "preceded blk e (blk @ e # post)"
  unfolding preceded_def
proof (intro allI impI)
  fix pre post'
  assume eq: "blk @ e # post = pre @ e # post'"
  then consider (left) us where "blk = pre @ us" "us @ e # post = e # post'"
    | (right) us where "blk @ us = pre" "e # post = us @ e # post'"
    by (auto simp add: append_eq_append_conv2)
  then show "\<exists>p. pre = p @ blk"
  proof cases
    case left
    then show ?thesis using assms(1)
      by (cases us) auto
  next
    case right
    then show ?thesis using assms(2)
      by (cases us) auto
  qed
qed

lemma trace_call_segment:
  "\<exists>ext. trace (call core c r) = trace r @ ext \<and> set ext \<subseteq> {Enter c, Leave c}"
  by (simp add: call_def split: option.split)

lemma preceded_call:
  assumes "preceded blk e (trace r)" and "e \<noteq> Enter c" and "e \<noteq> Leave c"
  shows "preceded blk e (trace (call core c r))"
proof -
  obtain ext where x: "trace (call core c r) = trace r @ ext" "set ext \<subseteq> {Enter c, Leave c}"
    using trace_call_segment by blast
  then have "e \<notin> set ext" using assms(2,3) by auto
  then have "preceded blk e ext" by (rule preceded_absent)
  with assms(1) x(1) show ?thesis by (simp add: preceded_append)
qed

lemma trace_call_pair:
  assumes "c \<noteq> d"
  shows "\<exists>ext. trace (call core d (call core c r)) = trace r @ ext
      \<and> (Enter d \<notin> set ext \<or> (\<exists>post. ext = [Enter c, Leave c] @ Enter d # post \<and> Enter d \<notin> set post))"
  using assms by (auto simp add: call_def split: option.split)

lemma preceded_call_pair:
  assumes "preceded [Enter c, Leave c] (Enter d) (trace r)" and "c \<noteq> d"
  shows "preceded [Enter c, Leave c] (Enter d) (trace (call core d (call core c r)))"
proof -
  obtain ext where t: "trace (call core d (call core c r)) = trace r @ ext"
    and e: "Enter d \<notin> set ext \<or> (\<exists>post. ext = [Enter c, Leave c] @ Enter d # post \<and> Enter d \<notin> set post)"
    using trace_call_pair [OF assms(2)] by blast
  from e have "preceded [Enter c, Leave c] (Enter d) ext"
  proof
    assume "Enter d \<notin> set ext"
    then show ?thesis by (rule preceded_absent)
  next
    assume "\<exists>post. ext = [Enter c, Leave c] @ Enter d # post \<and> Enter d \<notin> set post"
    then obtain post where p: "ext = [Enter c, Leave c] @ Enter d # post" "Enter d \<notin> set post"
      by blast
    have "Enter d \<notin> set [Enter c, Leave c]" using assms(2) by auto
    from preceded_block [OF this p(2)] p(1) show ?thesis by simp
  qed
  with assms(1) t show ?thesis
    by (simp add: preceded_append)
qed

lemma preceded_update: "preceded blk e (trace r) \<Longrightarrow> preceded blk e (trace (update f r))"
  by (simp add: trace_update)

lemma preceded_if:
  "preceded blk e (trace a) \<Longrightarrow> preceded blk e (trace b) \<Longrightarrow>
   preceded blk e (trace (if c then a else b))"
  by simp

lemma preceded_assign_token:
  assumes "preceded blk e (trace r)" and "e \<noteq> Enter (CheckToken t)" and "e \<noteq> Leave (CheckToken t)"
  shows "preceded blk e (trace (assign_token core t r))"
proof -
  have "\<exists>ext. trace (assign_token core t r) = trace r @ ext \<and> set ext \<subseteq> {Enter (CheckToken t), Leave (CheckToken t)}"
    by (simp add: assign_token_def split: option.split prod.split)
  then obtain ext where x: "trace (assign_token core t r) = trace r @ ext"
     "set ext \<subseteq> {Enter (CheckToken t), Leave (CheckToken t)}" by blast
  then have "e \<notin> set ext" using assms(2,3) by auto
  then have "preceded blk e ext" by (rule preceded_absent)
  with assms(1) x(1) show ?thesis by (simp add: preceded_append)
qed

lemma preceded_startup:
  assumes "\<And>t. e \<noteq> Enter (CheckToken t)" "\<And>t. e \<noteq> Leave (CheckToken t)"
    "\<And>w. e \<noteq> Enter (ValidateUserInput w)" "\<And>w. e \<noteq> Leave (ValidateUserInput w)"
    "e \<noteq> Enter InitGitClient" "e \<noteq> Leave InitGitClient"
  shows "preceded blk e (trace (startup core v))"
  unfolding startup_def credential_def Let_def
  by (intro preceded_call preceded_assign_token preceded_update assms) (simp_all add: preceded_absent)

lemma preceded_gather_targets_orgs:
  assumes "preceded [Enter GatherOrgs, Leave GatherOrgs] (Enter GatherGithubOrgRepositories) (trace r)"
  shows "preceded [Enter GatherOrgs, Leave GatherOrgs] (Enter GatherGithubOrgRepositories)
           (trace (gather_targets core r))"
  unfolding gather_targets_def Let_def
  by (intro preceded_if preceded_call_pair preceded_call preceded_update assms) simp_all

lemma preceded_gather_targets_users:
  assumes "preceded [Enter GatherUsers, Leave GatherUsers] (Enter GetGithubRepositoriesFromOwner) (trace r)"
  shows "preceded [Enter GatherUsers, Leave GatherUsers] (Enter GetGithubRepositoriesFromOwner)
           (trace (gather_targets core r))"
  unfolding gather_targets_def Let_def
  by (intro preceded_if preceded_call_pair preceded_call preceded_update assms) simp_all

lemma preceded_analyze:
  assumes "preceded blk e (trace r)"
    and "e \<noteq> Enter AnalyzeRepositories" "e \<noteq> Leave AnalyzeRepositories"
    and "e \<noteq> Enter Finish" "e \<noteq> Leave Finish"
    and "e \<noteq> Enter PrintSessionStats" "e \<noteq> Leave PrintSessionStats"
  shows "preceded blk e (trace (analyze core r))"
  unfolding analyze_def Let_def
  by (intro preceded_call assms)

lemma preceded_gather_targets:
  assumes "preceded blk e (trace r)"
    and "e \<noteq> Enter GatherUsers" "e \<noteq> Leave GatherUsers"
    and "e \<noteq> Enter GatherOrgs" "e \<noteq> Leave GatherOrgs"
    and "e \<noteq> Enter GatherGithubOrgRepositories" "e \<noteq> Leave GatherGithubOrgRepositories"
    and "e \<noteq> Enter GetGithubRepositoriesFromOwner" "e \<noteq> Leave GetGithubRepositoriesFromOwner"
  shows "preceded blk e (trace (gather_targets core r))"
  unfolding gather_targets_def Let_def
  by (intro preceded_if preceded_call preceded_update assms)

text \<open>
  Claim C5. In every run, whatever the functions of \<^verbatim>\<open>core\<close> do: wherever
  \<^verbatim>\<open>GatherGithubOrgRepositories\<close> is called, the call of \<^verbatim>\<open>GatherOrgs\<close> and its
  return stand right before it in the trace; wherever
  \<^verbatim>\<open>GetGithubRepositoriesFromOwner\<close> is called, the call of \<^verbatim>\<open>GatherUsers\<close> and its
  return stand right before it. The dependent gather starts only when the prerequisite
  gather has returned, with nothing in between.
\<close>

theorem prerequisite_gather_returns_first:
  "preceded [Enter GatherOrgs, Leave GatherOrgs] (Enter GatherGithubOrgRepositories)
     (trace (Run core v))
   \<and> preceded [Enter GatherUsers, Leave GatherUsers] (Enter GetGithubRepositoriesFromOwner)
     (trace (Run core v))"
  unfolding Run_def trace_serve
  by (intro conjI preceded_analyze preceded_gather_targets_orgs preceded_gather_targets_users
        preceded_startup) simp_all

text \<open>
  The mock runs with an organization and a repository, and with a login and a
  repository, each cut at the dependent gather.
\<close>

theorem prerequisite_gather_returns_first_witness:
  "trace (Run mock_core cfg_orgs_repos) =
     [Enter (ValidateUserInput cfg_orgs_repos), Leave (ValidateUserInput cfg_orgs_repos),
      Enter (CheckToken []), Leave (CheckToken []), Enter InitGitClient, Leave InitGitClient,
      Enter GatherOrgs, Leave GatherOrgs]
     @ Enter GatherGithubOrgRepositories #
     [Leave GatherGithubOrgRepositories, Enter AnalyzeRepositories, Leave AnalyzeRepositories,
      Enter Finish, Leave Finish, Enter PrintSessionStats, Leave PrintSessionStats]
   \<and> (\<exists>p. [Enter (ValidateUserInput cfg_orgs_repos), Leave (ValidateUserInput cfg_orgs_repos),
      Enter (CheckToken []), Leave (CheckToken []), Enter InitGitClient, Leave InitGitClient,
      Enter GatherOrgs, Leave GatherOrgs] = p @ [Enter GatherOrgs, Leave GatherOrgs])
   \<and> trace (Run mock_core cfg_logins_repos) =
     [Enter (ValidateUserInput cfg_logins_repos), Leave (ValidateUserInput cfg_logins_repos),
      Enter (CheckToken []), Leave (CheckToken []), Enter InitGitClient, Leave InitGitClient,
      Enter GatherUsers, Leave GatherUsers]
     @ Enter GetGithubRepositoriesFromOwner #
     [Leave GetGithubRepositoriesFromOwner, Enter AnalyzeRepositories,
      Leave AnalyzeRepositories, Enter Finish, Leave Finish, Enter PrintSessionStats,
      Leave PrintSessionStats]
   \<and> (\<exists>p. [Enter (ValidateUserInput cfg_logins_repos), Leave (ValidateUserInput cfg_logins_repos),
      Enter (CheckToken []), Leave (CheckToken []), Enter InitGitClient, Leave InitGitClient,
      Enter GatherUsers, Leave GatherUsers] = p @ [Enter GatherUsers, Leave GatherUsers])"
proof -
  let ?pre = "[Enter (ValidateUserInput cfg_orgs_repos), Leave (ValidateUserInput cfg_orgs_repos),
      Enter (CheckToken []), Leave (CheckToken []), Enter InitGitClient, Leave InitGitClient,
      Enter GatherOrgs, Leave GatherOrgs]"
  let ?post = "[Leave GatherGithubOrgRepositories, Enter AnalyzeRepositories,
      Leave AnalyzeRepositories, Enter Finish, Leave Finish, Enter PrintSessionStats,
      Leave PrintSessionStats]"
  let ?pre' = "[Enter (ValidateUserInput cfg_logins_repos), Leave (ValidateUserInput cfg_logins_repos),
      Enter (CheckToken []), Leave (CheckToken []), Enter InitGitClient, Leave InitGitClient,
      Enter GatherUsers, Leave GatherUsers]"
  let ?post' = "[Leave GetGithubRepositoriesFromOwner, Enter AnalyzeRepositories,
      Leave AnalyzeRepositories, Enter Finish, Leave Finish, Enter PrintSessionStats,
      Leave PrintSessionStats]"
  have t: "trace (Run mock_core cfg_orgs_repos) = ?pre @ Enter GatherGithubOrgRepositories # ?post"
    by code_simp
  have t': "trace (Run mock_core cfg_logins_repos) =
      ?pre' @ Enter GetGithubRepositoriesFromOwner # ?post'"
    by code_simp
  have "preceded [Enter GatherOrgs, Leave GatherOrgs] (Enter GatherGithubOrgRepositories)
     (trace (Run mock_core cfg_orgs_repos))"
    using prerequisite_gather_returns_first [of mock_core cfg_orgs_repos] by (rule conjunct1)
  then have a: "\<exists>p. ?pre = p @ [Enter GatherOrgs, Leave GatherOrgs]"
    unfolding preceded_def using t by blast
  have "preceded [Enter GatherUsers, Leave GatherUsers] (Enter GetGithubRepositoriesFromOwner)
     (trace (Run mock_core cfg_logins_repos))"
    using prerequisite_gather_returns_first [of mock_core cfg_logins_repos] by (rule conjunct2)
  then have b: "\<exists>p. ?pre' = p @ [Enter GatherUsers, Leave GatherUsers]"
    unfolding preceded_def using t' by blast
  from t a t' b show ?thesis by (intro conjI)
qed

section \<open>A missing token\<close>

lemma status_call_returns:
  assumes "returns core" and "\<not> validation c"
  shows "status (call core c r) = status r"
proof -
  from assms have "proc core c (sess r) \<noteq> None"
    unfolding returns_def by blast
  then show ?thesis by (auto simp add: call_def)
qed

lemma status_if: "status a = st \<Longrightarrow> status b = st \<Longrightarrow> status (if c then a else b) = st"
  by simp

lemma status_gather_targets: "returns core \<Longrightarrow> status (gather_targets core r) = status r"
  unfolding gather_targets_def Let_def
  by (intro status_if) (simp_all add: status_call_returns status_update)

lemma status_analyze: "returns core \<Longrightarrow> status (analyze core r) = status r"
  by (simp add: analyze_def Let_def status_call_returns)

lemma grown_refl: "\<exists>X. calls (trace r) = calls (trace r) @ X \<and> filter gatherer X = X"
  by simp

lemma grown_call:
  assumes "\<exists>X. calls (trace a) = base @ X \<and> filter gatherer X = X" and "gatherer c"
  shows "\<exists>X. calls (trace (call core c a)) = base @ X \<and> filter gatherer X = X"
proof -
  from assms(1) obtain X where X: "calls (trace a) = base @ X" "filter gatherer X = X" by blast
  let ?Y = "X @ (if status a = Running then [c] else [])"
  have "calls (trace (call core c a)) = base @ ?Y" by (simp add: calls_call X)
  moreover have "filter gatherer ?Y = ?Y" using X(2) assms(2) by simp
  ultimately show ?thesis by blast
qed

lemma grown_update:
  "\<exists>X. calls (trace a) = base @ X \<and> filter gatherer X = X \<Longrightarrow>
   \<exists>X. calls (trace (update f a)) = base @ X \<and> filter gatherer X = X"
  by (simp add: trace_update)

lemma grown_if:
  "\<exists>X. calls (trace a) = base @ X \<and> filter gatherer X = X \<Longrightarrow>
   \<exists>X. calls (trace b) = base @ X \<and> filter gatherer X = X \<Longrightarrow>
   \<exists>X. calls (trace (if c then a else b)) = base @ X \<and> filter gatherer X = X"
  by simp

lemma calls_gather_targets:
  "\<exists>X. calls (trace (gather_targets core r)) = calls (trace r) @ X \<and> filter gatherer X = X"
  unfolding gather_targets_def Let_def
  by (intro grown_if grown_call grown_update grown_refl) simp_all

lemma calls_gather_targets_startup:
  "calls (trace (gather_targets core (startup core v))) =
     calls (trace (startup core v)) @ gathers (trace (gather_targets core (startup core v)))"
proof -
  obtain X where X: "calls (trace (gather_targets core (startup core v))) = calls (trace (startup core v)) @ X"
    "filter gatherer X = X"
    using calls_gather_targets by blast
  have "gathers (trace (gather_targets core (startup core v))) = gathers (trace (startup core v)) @ X"
    using X unfolding gathers_def by simp
  then show ?thesis using X by (simp add: gathers_startup)
qed

lemma mock_returns: "returns mock_core"
proof -
  have "mock_proc c s \<noteq> None" if "\<not> validation c" for c s
    using that by (cases c) simp_all
  then show ?thesis unfolding returns_def mock_core_def by simp
qed

text \<open>
  Claim C7, for the credential resolver of the spec, user input that passes the
  validation and functions of \<^verbatim>\<open>core\<close> that return. When the key
  \<^verbatim>\<open>github-api-token\<close> is empty, the run is still running after
  line 35, the session is in degraded mode and the notice is in its output; the run
  then makes every call up to the statistics, with the gatherers of the resolver
  between \<^verbatim>\<open>InitGitClient\<close> and \<^verbatim>\<open>AnalyzeRepositories\<close>, and no call stops it.
\<close>

theorem missing_token_degrades:
  assumes "CheckGithubAPIToken core = CheckGithubAPIToken_spec"
    and "GetString v ''github-api-token'' = []"
    and "returns core"
    and "proc core (ValidateUserInput v) (NewSession core v ''github-enterprise'') \<noteq> None"
  shows "status (credential core v) = Running
       \<and> degraded (sess (credential core v))
       \<and> (INFO, ''no token is available so only public repos will be scanned'', [])
            \<in> set (Out (sess (credential core v)))
       \<and> calls (trace (Run core v)) =
            [ValidateUserInput v, CheckToken [], InitGitClient] @ gathers (trace (Run core v))
              @ [AnalyzeRepositories, Finish, PrintSessionStats]
       \<and> status (Run core v) \<noteq> Stopped"
proof -
  from assms(4) obtain s1 where s1: "proc core (ValidateUserInput v) (NewSession core v ''github-enterprise'') = Some s1"
    by blast
  have c: "credential core v =
     \<lparr>sess = s1\<lparr>Out := Out s1 @ [(INFO, ''no token is available so only public repos will be scanned'', [])],
                 GithubAccessToken := []\<rparr>,
      trace = [Enter (ValidateUserInput v), Leave (ValidateUserInput v), Enter (CheckToken []), Leave (CheckToken [])],
      status = Running\<rparr>"
    by (simp add: credential_def Let_def call_def assign_token_def s1 assms(1,2) CheckGithubAPIToken_spec_def)
  have sc: "status (credential core v) = Running"
    by (simp add: c)
  have cc: "calls (trace (credential core v)) = [ValidateUserInput v, CheckToken []]"
    by (simp add: c calls_def)
  have st: "status (startup core v) = Running"
    by (simp add: startup_def Let_def status_call_returns [OF assms(3)] status_update sc)
  have cs: "calls (trace (startup core v)) = [ValidateUserInput v, CheckToken [], InitGitClient]"
    by (simp add: startup_def Let_def calls_call status_update trace_update cc sc)
  have sg: "status (gather_targets core (startup core v)) = Running"
    by (simp add: status_gather_targets [OF assms(3)] st)
  have sa: "status (analyze core (gather_targets core (startup core v))) = Running"
    by (simp add: status_analyze [OF assms(3)] sg)
  have "calls (trace (Run core v)) =
      calls (trace (gather_targets core (startup core v))) @ [AnalyzeRepositories, Finish, PrintSessionStats]"
    by (simp add: Run_def trace_serve analyze_def Let_def calls_call status_call_returns [OF assms(3)] sg)
  then have "calls (trace (Run core v)) =
      [ValidateUserInput v, CheckToken [], InitGitClient] @ gathers (trace (Run core v))
        @ [AnalyzeRepositories, Finish, PrintSessionStats]"
    by (simp add: calls_gather_targets_startup cs gathers_Run)
  moreover have "status (Run core v) \<noteq> Stopped"
    using sa by (simp add: Run_def serve_def Let_def finish_with_def update_def)
  ultimately show ?thesis
    by (simp add: c degraded_def)
qed

text \<open>The mock run with a login and no token (scenario 4 of spec section 8).\<close>

theorem missing_token_degrades_witness:
  "CheckGithubAPIToken mock_core = CheckGithubAPIToken_spec
   \<and> GetString cfg_login ''github-api-token'' = []
   \<and> returns mock_core
   \<and> proc mock_core (ValidateUserInput cfg_login)
         (NewSession mock_core cfg_login ''github-enterprise'') \<noteq> None
   \<and> status (credential mock_core cfg_login) = Running
   \<and> degraded (sess (credential mock_core cfg_login))
   \<and> (INFO, ''no token is available so only public repos will be scanned'', [])
        \<in> set (Out (sess (credential mock_core cfg_login)))
   \<and> calls (trace (Run mock_core cfg_login)) =
        [ValidateUserInput cfg_login, CheckToken [], InitGitClient] @ [GatherUsers]
          @ [AnalyzeRepositories, Finish, PrintSessionStats]
   \<and> status (Run mock_core cfg_login) \<noteq> Stopped"
proof -
  have a: "CheckGithubAPIToken mock_core = CheckGithubAPIToken_spec"
    by (simp add: mock_core_def)
  have b: "GetString cfg_login ''github-api-token'' = []"
    by code_simp
  have p: "proc mock_core (ValidateUserInput cfg_login)
      (NewSession mock_core cfg_login ''github-enterprise'') \<noteq> None"
    by code_simp
  have g: "gathers (trace (Run mock_core cfg_login)) = [GatherUsers]"
    by code_simp
  note t = missing_token_degrades [OF a b mock_returns p]
  from t g have c: "calls (trace (Run mock_core cfg_login)) =
      [ValidateUserInput cfg_login, CheckToken [], InitGitClient] @ [GatherUsers]
        @ [AnalyzeRepositories, Finish, PrintSessionStats]"
    by simp
  from t have d: "status (credential mock_core cfg_login) = Running"
    by (elim conjE)
  from t have e: "degraded (sess (credential mock_core cfg_login))"
    by (elim conjE)
  from t have f: "(INFO, ''no token is available so only public repos will be scanned'', [])
      \<in> set (Out (sess (credential mock_core cfg_login)))"
    by (elim conjE)
  from t have h: "status (Run mock_core cfg_login) \<noteq> Stopped"
    by (elim conjE)
  from a b mock_returns p d e f c h show ?thesis by (intro conjI)
qed

section \<open>The end of the session\<close>

lemma unfinished_call:
  assumes "timed clock core" and "c \<noteq> Finish" and "unfinished clock t0 r"
  shows "unfinished clock t0 (call core c r)"
proof (cases "status r = Running")
  case False
  then show ?thesis using assms(3) by (simp add: call_def)
next
  case True
  show ?thesis
  proof (cases "proc core c (sess r)")
    case None
    then show ?thesis using True assms(2,3) by (simp add: call_def unfinished_def)
  next
    case (Some s')
    from assms(1) Some assms(2) have "Stats s' = Stats (sess r)"
      unfolding timed_def by blast
    moreover from assms(1) Some have "clock (Session.more (sess r)) \<le> clock (Session.more s')"
      unfolding timed_def by blast
    ultimately show ?thesis using True Some assms(2,3)
      by (auto simp add: call_def unfinished_def)
  qed
qed

lemma unfinished_update_Out:
  assumes "unfinished clock t0 r"
  shows "unfinished clock t0 (update (Out_Important fmt args) r)"
    and "unfinished clock t0 (update (Out_Error fmt args) r)"
  using assms by (simp_all add: update_def unfinished_def Out_Important_def Out_Error_def)

lemma unfinished_assign_token:
  assumes "timed clock core" and "unfinished clock t0 r"
  shows "unfinished clock t0 (assign_token core t r)"
proof (cases "status r = Running")
  case False
  then show ?thesis using assms(2) by (simp add: assign_token_def)
next
  case True
  show ?thesis
  proof (cases "CheckGithubAPIToken core t (sess r)")
    case None
    then show ?thesis using True assms(2) by (simp add: assign_token_def unfinished_def)
  next
    case (Some p)
    obtain tok s' where p: "p = (tok, s')" by (cases p)
    from assms(1) Some p have "Stats s' = Stats (sess r) \<and> clock (Session.more (sess r)) \<le> clock (Session.more s')"
      unfolding timed_def by blast
    then show ?thesis using True Some p assms(2)
      by (auto simp add: assign_token_def unfinished_def)
  qed
qed

lemma unfinished_if:
  "unfinished clock t0 a \<Longrightarrow> unfinished clock t0 b \<Longrightarrow> unfinished clock t0 (if c then a else b)"
  by simp

lemma unfinished_new:
  assumes "timed clock core"
  shows "unfinished clock (StartedAt (Stats (NewSession core v ty)))
           \<lparr>sess = NewSession core v ty, trace = [], status = Running\<rparr>"
  using assms unfolding timed_def unfinished_def by simp

lemma unfinished_startup:
  assumes "timed clock core"
  shows "unfinished clock (StartedAt (Stats (NewSession core v ''github-enterprise''))) (startup core v)"
  unfolding startup_def credential_def Let_def
  by (intro unfinished_call unfinished_assign_token unfinished_update_Out unfinished_new assms) simp_all

lemma unfinished_gather_targets:
  assumes "timed clock core" and "unfinished clock t0 r"
  shows "unfinished clock t0 (gather_targets core r)"
  unfolding gather_targets_def Let_def
  by (intro unfinished_if unfinished_call unfinished_update_Out assms) simp_all

lemma finished_once_Finish:
  assumes "timed clock core" and "unfinished clock t0 r"
  shows "finished_once t0 (call core Finish r)"
proof -
  have f: "filter (\<lambda>e. e = Enter Finish) (trace r) = []"
    using assms(2) by (auto simp add: unfinished_def filter_empty_conv)
  show ?thesis
  proof (cases "status r = Running")
    case False
    then show ?thesis using assms(2) f by (simp add: call_def unfinished_def finished_once_def)
  next
    case True
    show ?thesis
    proof (cases "proc core Finish (sess r)")
      case None
      then show ?thesis using True assms(2) f
        by (simp add: call_def unfinished_def finished_once_def)
    next
      case (Some s')
      from assms(1) Some obtain t where t: "clock (Session.more (sess r)) \<le> t"
        "Stats s' = (Stats (sess r))\<lparr>FinishedAt := Some t\<rparr>"
        unfolding timed_def by blast
      then show ?thesis using True Some assms(2) f
        by (simp add: call_def unfinished_def finished_once_def)
    qed
  qed
qed

lemma finished_once_call:
  assumes "timed clock core" and "c \<noteq> Finish" and "finished_once t0 r"
  shows "finished_once t0 (call core c r)"
proof (cases "status r = Running")
  case False
  then show ?thesis using assms(3) by (simp add: call_def)
next
  case True
  show ?thesis
  proof (cases "proc core c (sess r)")
    case None
    then show ?thesis using True assms(2,3)
      by (auto simp add: call_def finished_once_def split: if_splits)
  next
    case (Some s')
    from assms(1) Some assms(2) have "Stats s' = Stats (sess r)"
      unfolding timed_def by blast
    then show ?thesis using True Some assms(2,3)
      by (auto simp add: call_def finished_once_def split: if_splits)
  qed
qed

lemma finished_once_serve:
  assumes "finished_once t0 r"
  shows "finished_once t0 (serve r)"
  using assms
  by (auto simp add: serve_def Let_def update_def finish_with_def finished_once_def
      Out_Important_def split: if_splits)

lemma finished_once_Run:
  assumes "timed clock core"
  shows "finished_once (StartedAt (Stats (NewSession core v ''github-enterprise''))) (Run core v)"
proof -
  let ?t0 = "StartedAt (Stats (NewSession core v ''github-enterprise''))"
  let ?g = "gather_targets core (startup core v)"
  let ?a = "call core AnalyzeRepositories ?g"
  let ?f = "call core Finish ?a"
  have g: "unfinished clock ?t0 ?g"
    by (rule unfinished_gather_targets [OF assms unfinished_startup [OF assms]])
  have a: "unfinished clock ?t0 ?a"
    by (rule unfinished_call [OF assms _ g]) simp
  have f: "finished_once ?t0 ?f"
    by (rule finished_once_Finish [OF assms a])
  have "finished_once ?t0 (call core PrintSessionStats ?f)"
    by (rule finished_once_call [OF assms _ f]) simp
  then show ?thesis
    unfolding Run_def analyze_def Let_def by (rule finished_once_serve)
qed

lemma preceded_Finish:
  "preceded [Enter AnalyzeRepositories, Leave AnalyzeRepositories] (Enter Finish) (trace (Run core v))"
proof -
  have "preceded [Enter AnalyzeRepositories, Leave AnalyzeRepositories] (Enter Finish)
      (trace (gather_targets core (startup core v)))"
    by (intro preceded_gather_targets preceded_startup) simp_all
  then show ?thesis
    unfolding Run_def trace_serve analyze_def Let_def
    by (intro preceded_call preceded_call_pair) simp_all
qed

lemma preceded_PrintSessionStats:
  "preceded [Enter Finish, Leave Finish] (Enter PrintSessionStats) (trace (Run core v))"
proof -
  have "preceded [Enter Finish, Leave Finish] (Enter PrintSessionStats)
      (trace (gather_targets core (startup core v)))"
    by (intro preceded_gather_targets preceded_startup) simp_all
  then have "preceded [Enter Finish, Leave Finish] (Enter PrintSessionStats)
      (trace (call core AnalyzeRepositories (gather_targets core (startup core v))))"
    by (intro preceded_call) simp_all
  then show ?thesis
    unfolding Run_def trace_serve analyze_def Let_def
    by (intro preceded_call_pair) simp_all
qed

text \<open>
  Claim C8, for timestamps as the spec describes them (\<open>timed\<close>). In every run the
  session is finished exactly when the call of \<^verbatim>\<open>Finish\<close> has returned, and then at an
  instant not before its start, \<^verbatim>\<open>Finish\<close> having been called exactly once; until
  then it is not finished. The start is the one \<^verbatim>\<open>NewSession\<close> has set.
  \<^verbatim>\<open>Finish\<close> is called only right after \<^verbatim>\<open>AnalyzeRepositories\<close> has returned, and
  \<^verbatim>\<open>PrintSessionStats\<close> only right after \<^verbatim>\<open>Finish\<close> has returned.
\<close>

theorem finished_after_started:
  assumes "timed clock core"
  shows "(if Leave Finish \<in> set (trace (Run core v))
          then (\<exists>t. FinishedAt (Stats (sess (Run core v))) = Some t
                  \<and> StartedAt (Stats (sess (Run core v))) \<le> t)
               \<and> length (filter (\<lambda>e. e = Enter Finish) (trace (Run core v))) = 1
          else FinishedAt (Stats (sess (Run core v))) = None
               \<and> length (filter (\<lambda>e. e = Enter Finish) (trace (Run core v))) \<le> 1)
       \<and> StartedAt (Stats (sess (Run core v))) =
           StartedAt (Stats (NewSession core v ''github-enterprise''))
       \<and> preceded [Enter AnalyzeRepositories, Leave AnalyzeRepositories] (Enter Finish)
            (trace (Run core v))
       \<and> preceded [Enter Finish, Leave Finish] (Enter PrintSessionStats) (trace (Run core v))"
  using finished_once_Run [OF assms, of v] preceded_Finish [of core v]
    preceded_PrintSessionStats [of core v]
  by (auto simp add: finished_once_def split: if_splits)

lemma timed_mock: "timed (\<lambda>n. n) mock_core"
proof -
  have p: "Stats s' = (if c = Finish then (Stats s)\<lparr>FinishedAt := Some (Suc (Session.more s))\<rparr> else Stats s)
      \<and> Session.more s' = Suc (Session.more s)"
    if "mock_proc c s = Some s'" for c s s'
    using that by (cases c) (auto simp add: ValidateUserInput_spec_def split: if_splits)
  have new: "StartedAt (Stats (mock_NewSession v ty)) \<le> Session.more (mock_NewSession v ty)
      \<and> FinishedAt (Stats (mock_NewSession v ty)) = None" for v ty
    by (simp add: mock_NewSession_def)
  have fin: "\<exists>t. Session.more s \<le> t \<and> Stats s' = (Stats s)\<lparr>FinishedAt := Some t\<rparr>"
    if "mock_proc Finish s = Some s'" for s s'
  proof -
    from p [OF that] have "Stats s' = (Stats s)\<lparr>FinishedAt := Some (Suc (Session.more s))\<rparr>"
      by simp
    moreover have "Session.more s \<le> Suc (Session.more s)" by simp
    ultimately show ?thesis by blast
  qed
  have other: "Stats s' = Stats s" if "c \<noteq> Finish" "mock_proc c s = Some s'" for c s s'
    using p [OF that(2)] that(1) by simp
  have tok: "Stats s' = Stats s \<and> Session.more s \<le> Session.more s'"
    if "CheckGithubAPIToken_spec t s = Some (tok, s')"
    for t tok and s s' :: "nat Session_scheme"
    using that by (auto simp add: CheckGithubAPIToken_spec_def split: if_splits)
  have mono: "Session.more s \<le> Session.more s'" if "mock_proc c s = Some s'" for c s s'
    using p [OF that] by simp
  show ?thesis
    unfolding timed_def mock_core_def
    using new fin other tok mono by simp
qed

text \<open>The mock run with an organization and a repository: finished, after its start.\<close>

theorem finished_after_started_witness:
  "timed (\<lambda>n. n) mock_core
   \<and> Leave Finish \<in> set (trace (Run mock_core cfg_orgs_repos))
   \<and> (\<exists>t. FinishedAt (Stats (sess (Run mock_core cfg_orgs_repos))) = Some t
          \<and> StartedAt (Stats (sess (Run mock_core cfg_orgs_repos))) \<le> t)
   \<and> length (filter (\<lambda>e. e = Enter Finish) (trace (Run mock_core cfg_orgs_repos))) = 1"
proof -
  have l: "Leave Finish \<in> set (trace (Run mock_core cfg_orgs_repos))"
    by code_simp
  note t = finished_after_started [OF timed_mock, of cfg_orgs_repos]
  from t have "if Leave Finish \<in> set (trace (Run mock_core cfg_orgs_repos))
      then (\<exists>t. FinishedAt (Stats (sess (Run mock_core cfg_orgs_repos))) = Some t
              \<and> StartedAt (Stats (sess (Run mock_core cfg_orgs_repos))) \<le> t)
           \<and> length (filter (\<lambda>e. e = Enter Finish) (trace (Run mock_core cfg_orgs_repos))) = 1
      else FinishedAt (Stats (sess (Run mock_core cfg_orgs_repos))) = None
           \<and> length (filter (\<lambda>e. e = Enter Finish) (trace (Run mock_core cfg_orgs_repos))) \<le> 1"
    by (rule conjunct1)
  with l have "(\<exists>t. FinishedAt (Stats (sess (Run mock_core cfg_orgs_repos))) = Some t
        \<and> StartedAt (Stats (sess (Run mock_core cfg_orgs_repos))) \<le> t)
      \<and> length (filter (\<lambda>e. e = Enter Finish) (trace (Run mock_core cfg_orgs_repos))) = 1"
    by (simp only: if_True)
  with timed_mock l show ?thesis
    by (intro conjI) (erule conjunct1 conjunct2 | assumption)+
qed

end
